theory Spec2Isabelle
  imports Main "HOL-Library.Sublist"
begin

section \<open>Python values and exceptions\<close>

text \<open>
  The program is one Python module, \<^verbatim>\<open>lambda_function.py\<close>: it lists the running EC2
  instances and the RDS database instances of an account and stops them. The provider
  (boto3) is outside the module; it is a parameter of the model, and every call the module
  makes to it is recorded in a trace.

  A \<^verbatim>\<open>datetime.date\<close> has a year, a month and a day; a \<^verbatim>\<open>datetime.datetime\<close> is a date
  with a time of day and an optional offset from UTC, here in microseconds
  (\<open>None\<close> for a naive value).
\<close>

record date =
  year :: nat
  month :: nat
  day :: nat

record datetime = date +
  hour :: nat
  minute :: nat
  second :: nat
  microsecond :: nat
  utcoffset :: "int option"

text \<open>
  The values found in a provider response: the JSON-native ones, the two temporal classes,
  and \<open>PObject\<close> for an object of any other class (tagged by a description). Dictionaries
  keep their insertion order and have string keys, as the provider's records do. Strings are
  sequences of code points below 256. Floats are left out.
\<close>

datatype pyval =
    PNone
  | PBool bool
  | PInt int
  | PStr string
  | PList "pyval list"
  | PDict "(string \<times> pyval) list"
  | PDate date
  | PDateTime datetime
  | PObject string

text \<open>
  The exceptions the module can meet. \<open>ClientError\<close> is botocore's class (and its
  subclasses), the only one the module catches; \<open>OtherException\<close> is an exception of any
  other class, for example a connection failure raised by the provider library.
\<close>

datatype exn =
    ClientError string
  | KeyError string
  | TypeError string
  | RecursionError
  | OtherException string

section \<open>Formatting numbers and temporal values\<close>

definition digit_char :: "nat \<Rightarrow> char" where
  "digit_char n = char_of (48 + n)"

text \<open>The decimal digits of a natural number, as \<^verbatim>\<open>str\<close> prints them.\<close>

fun dec :: "nat \<Rightarrow> string" where
  "dec n = (if n < 10 then [digit_char n] else dec (n div 10) @ [digit_char (n mod 10)])"

declare dec.simps [simp del]

text \<open>\<^verbatim>\<open>'%0wd' % n\<close> for a natural number: at least \<open>w\<close> digits, padded with zeros.\<close>

definition zero_pad :: "nat \<Rightarrow> nat \<Rightarrow> string" where
  "zero_pad w n = replicate (w - length (dec n)) (CHR ''0'') @ dec n"

definition int_repr :: "int \<Rightarrow> string" where
  "int_repr i = (if i < 0 then CHR ''-'' # dec (nat (- i)) else dec (nat i))"

text \<open>\<^verbatim>\<open>date.isoformat()\<close>: \<^verbatim>\<open>'%04d-%02d-%02d'\<close>.\<close>

definition date_isoformat :: "'a date_scheme \<Rightarrow> string" where
  "date_isoformat d = zero_pad 4 (year d) @ ''-'' @ zero_pad 2 (month d) @ ''-'' @ zero_pad 2 (day d)"

text \<open>
  The time of day with the default \<^verbatim>\<open>timespec='auto'\<close>: the microseconds are printed
  only when they are not zero.
\<close>

definition format_time :: "nat \<Rightarrow> nat \<Rightarrow> nat \<Rightarrow> nat \<Rightarrow> string" where
  "format_time hh mm ss us =
     zero_pad 2 hh @ '':'' @ zero_pad 2 mm @ '':'' @ zero_pad 2 ss @
     (if us \<noteq> 0 then ''.'' @ zero_pad 6 us else [])"

text \<open>
  The offset from UTC: a sign, hours and minutes, then the seconds and the microseconds
  when they are not zero; nothing for a naive value.
\<close>

definition format_offset :: "int option \<Rightarrow> string" where
  "format_offset off =
     (case off of
        None \<Rightarrow> []
      | Some u \<Rightarrow>
          (let a = \<bar>u\<bar>;
               hh = a div 3600000000;
               r = a mod 3600000000;
               mm = r div 60000000;
               ss = r mod 60000000
           in (if u < 0 then ''-'' else ''+'') @
              zero_pad 2 (nat hh) @ '':'' @ zero_pad 2 (nat mm) @
              (if ss \<noteq> 0
               then '':'' @ zero_pad 2 (nat (ss div 1000000)) @
                    (if ss mod 1000000 \<noteq> 0
                     then ''.'' @ zero_pad 6 (nat (ss mod 1000000)) else [])
               else [])))"

text \<open>\<^verbatim>\<open>datetime.isoformat()\<close> with the default separator \<^verbatim>\<open>'T'\<close>.\<close>

definition datetime_isoformat :: "datetime \<Rightarrow> string" where
  "datetime_isoformat dt =
     date_isoformat dt @ ''T'' @
     format_time (hour dt) (minute dt) (second dt) (microsecond dt) @
     format_offset (utcoffset dt)"

section \<open>The JSON encoder\<close>

text \<open>
  \<^verbatim>\<open>json.dumps(obj, cls=...)\<close> with the standard library's defaults: ASCII output,
  separators \<^verbatim>\<open>', '\<close> and \<^verbatim>\<open>': '\<close>, no indentation. A string is quoted; a backslash, a
  double quote and every character outside \<^verbatim>\<open>' '..'~'\<close> are escaped.
\<close>

definition hex_char :: "nat \<Rightarrow> char" where
  "hex_char n = ''0123456789abcdef'' ! (n mod 16)"

definition needs_escape :: "char \<Rightarrow> bool" where
  "needs_escape c \<longleftrightarrow>
     c = CHR 0x5C \<or> c = CHR 0x22 \<or> (of_char c :: nat) < 0x20 \<or> 0x7E < (of_char c :: nat)"

definition replace_char :: "char \<Rightarrow> string" where
  "replace_char c =
     (if c = CHR 0x5C then [CHR 0x5C, CHR 0x5C]
      else if c = CHR 0x22 then [CHR 0x5C, CHR 0x22]
      else if c = CHR 0x08 then [CHR 0x5C, CHR ''b'']
      else if c = CHR 0x0C then [CHR 0x5C, CHR ''f'']
      else if c = CHR 0x0A then [CHR 0x5C, CHR ''n'']
      else if c = CHR 0x0D then [CHR 0x5C, CHR ''r'']
      else if c = CHR 0x09 then [CHR 0x5C, CHR ''t'']
      else [CHR 0x5C, CHR ''u'', CHR ''0'', CHR ''0'',
            hex_char ((of_char c :: nat) div 16), hex_char (of_char c :: nat)])"

definition encode_basestring_ascii :: "string \<Rightarrow> string" where
  "encode_basestring_ascii s =
     CHR 0x22 # concat (map (\<lambda>c. if needs_escape c then replace_char c else [c]) s) @ [CHR 0x22]"

text \<open>
  The encoder proper. A value that is not JSON-native is handed to the encoder's
  \<^verbatim>\<open>default\<close> method, and what that returns is encoded in its place, by the same encoder.
  The first argument bounds the depth of such chains of \<^verbatim>\<open>default\<close> calls, as the
  interpreter's recursion limit does; beyond it the encoder raises \<^verbatim>\<open>RecursionError\<close>.
\<close>

definition item_separator :: string where
  "item_separator = '', ''"

definition key_separator :: string where
  "key_separator = '': ''"

fun iterencode :: "nat \<Rightarrow> (pyval \<Rightarrow> exn + pyval) \<Rightarrow> pyval \<Rightarrow> exn + string"
  and iterencode_list :: "nat \<Rightarrow> (pyval \<Rightarrow> exn + pyval) \<Rightarrow> pyval list \<Rightarrow> exn + string"
  and iterencode_dict :: "nat \<Rightarrow> (pyval \<Rightarrow> exn + pyval) \<Rightarrow> (string \<times> pyval) list \<Rightarrow> exn + string"
where
  "iterencode k dflt PNone = Inr ''null''"
| "iterencode k dflt (PBool b) = Inr (if b then ''true'' else ''false'')"
| "iterencode k dflt (PInt i) = Inr (int_repr i)"
| "iterencode k dflt (PStr s) = Inr (encode_basestring_ascii s)"
| "iterencode k dflt (PList xs) =
     (case iterencode_list k dflt xs of
        Inl ex \<Rightarrow> Inl ex
      | Inr body \<Rightarrow> Inr (''['' @ body @ '']''))"
| "iterencode k dflt (PDict kvs) =
     (case iterencode_dict k dflt kvs of
        Inl ex \<Rightarrow> Inl ex
      | Inr body \<Rightarrow> Inr (''{'' @ body @ ''}''))"
| "iterencode k dflt (PDate d) =
     (case k of
        0 \<Rightarrow> Inl RecursionError
      | Suc k' \<Rightarrow> (case dflt (PDate d) of Inl ex \<Rightarrow> Inl ex | Inr v \<Rightarrow> iterencode k' dflt v))"
| "iterencode k dflt (PDateTime dt) =
     (case k of
        0 \<Rightarrow> Inl RecursionError
      | Suc k' \<Rightarrow> (case dflt (PDateTime dt) of Inl ex \<Rightarrow> Inl ex | Inr v \<Rightarrow> iterencode k' dflt v))"
| "iterencode k dflt (PObject x) =
     (case k of
        0 \<Rightarrow> Inl RecursionError
      | Suc k' \<Rightarrow> (case dflt (PObject x) of Inl ex \<Rightarrow> Inl ex | Inr v \<Rightarrow> iterencode k' dflt v))"
| "iterencode_list k dflt [] = Inr []"
| "iterencode_list k dflt (x # xs) =
     (case iterencode k dflt x of
        Inl ex \<Rightarrow> Inl ex
      | Inr tx \<Rightarrow>
          (if xs = [] then Inr tx
           else (case iterencode_list k dflt xs of
                   Inl ex \<Rightarrow> Inl ex
                 | Inr rest \<Rightarrow> Inr (tx @ item_separator @ rest))))"
| "iterencode_dict k dflt [] = Inr []"
| "iterencode_dict k dflt (kv # kvs) =
     (case iterencode k dflt (snd kv) of
        Inl ex \<Rightarrow> Inl ex
      | Inr tv \<Rightarrow>
          (if kvs = [] then Inr (encode_basestring_ascii (fst kv) @ key_separator @ tv)
           else (case iterencode_dict k dflt kvs of
                   Inl ex \<Rightarrow> Inl ex
                 | Inr rest \<Rightarrow> Inr (encode_basestring_ascii (fst kv) @ key_separator @ tv @
                              item_separator @ rest))))"

definition recursion_limit :: nat where
  "recursion_limit = 1000"

definition json_dumps :: "(pyval \<Rightarrow> exn + pyval) \<Rightarrow> pyval \<Rightarrow> exn + string" where
  "json_dumps cls_default obj = iterencode recursion_limit cls_default obj"

text \<open>The base class's \<^verbatim>\<open>JSONEncoder.default\<close> raises \<^verbatim>\<open>TypeError\<close> for every object.\<close>

definition JSONEncoder_default :: "pyval \<Rightarrow> exn + pyval" where
  "JSONEncoder_default obj = Inl (TypeError ''Object is not JSON serializable'')"

text \<open>
  \<^verbatim>\<open>DateTimeEncoder.default\<close>: the ISO format of a date or a datetime; for any other
  object the method falls off its end, and so returns \<^verbatim>\<open>None\<close>.
\<close>

fun isoformat :: "pyval \<Rightarrow> string" where
  "isoformat (PDate d) = date_isoformat d"
| "isoformat (PDateTime dt) = datetime_isoformat dt"
| "isoformat _ = []"

fun is_temporal :: "pyval \<Rightarrow> bool" where
  "is_temporal (PDate d) = True"
| "is_temporal (PDateTime dt) = True"
| "is_temporal _ = False"

definition DateTimeEncoder_default :: "pyval \<Rightarrow> exn + pyval" where
  "DateTimeEncoder_default obj =
     (if is_temporal obj then Inr (PStr (isoformat obj)) else Inr PNone)"

section \<open>The provider and the trace\<close>

text \<open>
  An EC2 instance is an opaque handle of the resource API; the module reads its \<^verbatim>\<open>id\<close>
  and calls its \<^verbatim>\<open>stop\<close> method.
\<close>

record ec2_instance =
  instance_id :: string

text \<open>One element of the \<^verbatim>\<open>Filters\<close> argument: \<^verbatim>\<open>{'Name': ..., 'Values': [...]}\<close>.\<close>

record ec2_filter =
  filter_Name :: string
  filter_Values :: "string list"

text \<open>
  A printed line is kept as the parts of its f-string: the literal text and the values
  substituted into it.
\<close>

datatype fpart = Lit string | Subst pyval | SubstExn exn

text \<open>
  What the module does to the outside world, in order: the lines it prints and the calls it
  makes to the provider, each with its arguments.
  \<^item> \<open>Ec2InstancesFilter fs n\<close>: \<^verbatim>\<open>ec2.instances.filter(Filters=fs, MaxResults=n)\<close>;
  \<^item> \<open>Ec2InstanceStop i h d\<close>: \<^verbatim>\<open>instance.stop(Hibernate=h, DryRun=d)\<close> on the instance
    with id \<open>i\<close>;
  \<^item> \<open>RdsPaginate op\<close>: \<^verbatim>\<open>rds_client.get_paginator(op).paginate()\<close>;
  \<^item> \<open>RdsStopDbInstance v\<close>: \<^verbatim>\<open>rds_client.stop_db_instance(DBInstanceIdentifier=v)\<close>.
\<close>

datatype event =
    Print "fpart list"
  | Ec2InstancesFilter "ec2_filter list" nat
  | Ec2InstanceStop string bool bool
  | RdsPaginate string
  | RdsStopDbInstance pyval

type_synonym trace = "event list"

text \<open>
  The provider answers each call, possibly depending on everything that happened before
  (the trace up to the call). An iteration yields the items of a list and may then raise;
  a stop call returns (\<open>None\<close>) or raises.
\<close>

record provider =
  ec2_instances_filter :: "trace \<Rightarrow> ec2_filter list \<Rightarrow> nat \<Rightarrow> ec2_instance list \<times> exn option"
  instance_stop :: "trace \<Rightarrow> ec2_instance \<Rightarrow> bool \<Rightarrow> bool \<Rightarrow> exn option"
  rds_paginate :: "trace \<Rightarrow> string \<Rightarrow> pyval list \<times> exn option"
  rds_stop_db_instance :: "trace \<Rightarrow> pyval \<Rightarrow> exn option"

text \<open>A call of the module returns a value or raises, and leaves a trace.\<close>

type_synonym 'a result = "(exn + 'a) \<times> trace"

section \<open>Subscripts and iteration\<close>

text \<open>\<^verbatim>\<open>obj[key]\<close> with a string key: a lookup in a dictionary, \<^verbatim>\<open>KeyError\<close> when the key
  is missing, \<^verbatim>\<open>TypeError\<close> on any other value.\<close>

fun py_getitem :: "pyval \<Rightarrow> string \<Rightarrow> exn + pyval" where
  "py_getitem (PDict kvs) key =
     (case map_of kvs key of None \<Rightarrow> Inl (KeyError key) | Some v \<Rightarrow> Inr v)"
| "py_getitem _ key = Inl (TypeError ''indices must be integers'')"

text \<open>\<^verbatim>\<open>for x in obj\<close>: the elements of a list, the keys of a dictionary, the characters
  of a string; \<^verbatim>\<open>TypeError\<close> on any other value.\<close>

fun py_iter :: "pyval \<Rightarrow> exn + pyval list" where
  "py_iter (PList xs) = Inr xs"
| "py_iter (PDict kvs) = Inr (map (\<lambda>kv. PStr (fst kv)) kvs)"
| "py_iter (PStr s) = Inr (map (\<lambda>c. PStr [c]) s)"
| "py_iter _ = Inl (TypeError ''object is not iterable'')"

text \<open>The loop \<^verbatim>\<open>for x in xs: result.append(x)\<close>.\<close>

fun append_each :: "'a list \<Rightarrow> 'a list \<Rightarrow> 'a list" where
  "append_each result [] = result"
| "append_each result (x # xs) = append_each (result @ [x]) xs"

section \<open>The resource listers\<close>

definition RUNNING_INSTANCES_STATE_CODE :: nat where
  "RUNNING_INSTANCES_STATE_CODE = 16"

definition get_ec2_vm_list :: "provider \<Rightarrow> trace \<Rightarrow> ec2_instance list result" where
  "get_ec2_vm_list P t =
     (let Filters = [\<lparr>filter_Name = ''instance-state-code'',
                      filter_Values = [dec RUNNING_INSTANCES_STATE_CODE]\<rparr>];
          t1 = t @ [Ec2InstancesFilter Filters 20]
      in case ec2_instances_filter P t Filters 20 of
           (instances, Some ex) \<Rightarrow> (Inl ex, t1)
         | (instances, None) \<Rightarrow> (Inr (append_each [] instances), t1))"

text \<open>
  The outer loop of \<^verbatim>\<open>get_rds_db_list\<close> over the pages, with the list built so far:
  \<^verbatim>\<open>page['DBInstances']\<close> is looked up and each of its elements appended.
\<close>

fun drain_pages :: "pyval list \<Rightarrow> pyval list \<Rightarrow> exn + pyval list" where
  "drain_pages [] result = Inr result"
| "drain_pages (page # pages) result =
     (case py_getitem page ''DBInstances'' of
        Inl ex \<Rightarrow> Inl ex
      | Inr v \<Rightarrow>
          (case py_iter v of
             Inl ex \<Rightarrow> Inl ex
           | Inr db_instances \<Rightarrow> drain_pages pages (append_each result db_instances)))"

definition get_rds_db_list :: "provider \<Rightarrow> trace \<Rightarrow> pyval list result" where
  "get_rds_db_list P t =
     (let t1 = t @ [RdsPaginate ''describe_db_instances'']
      in case rds_paginate P t ''describe_db_instances'' of
           (pages, fault) \<Rightarrow>
             (case drain_pages pages [] of
                Inl ex \<Rightarrow> (Inl ex, t1)
              | Inr result \<Rightarrow>
                  (case fault of Some ex \<Rightarrow> (Inl ex, t1) | None \<Rightarrow> (Inr result, t1))))"

section \<open>The shutdown executor\<close>

fun turnoff_ec2_vms :: "provider \<Rightarrow> ec2_instance list \<Rightarrow> bool \<Rightarrow> trace \<Rightarrow> unit result" where
  "turnoff_ec2_vms P [] dry_run t = (Inr (), t)"
| "turnoff_ec2_vms P (inst # rest) dry_run t =
     (let t1 = t @ [Print [Lit ''Stopping VM: '', Subst (PStr (instance_id inst))]];
          t2 = t1 @ [Ec2InstanceStop (instance_id inst) False dry_run]
      in case instance_stop P t1 inst False dry_run of
           None \<Rightarrow> turnoff_ec2_vms P rest dry_run t2
         | Some (ClientError msg) \<Rightarrow>
             turnoff_ec2_vms P rest dry_run
               (t2 @ [Print [Lit ''Exception: '', SubstExn (ClientError msg)]])
         | Some ex \<Rightarrow> (Inl ex, t2))"

fun stop_rds_dbs :: "provider \<Rightarrow> pyval list \<Rightarrow> bool \<Rightarrow> trace \<Rightarrow> unit result" where
  "stop_rds_dbs P [] dry_run t = (Inr (), t)"
| "stop_rds_dbs P (db_instance # rest) dry_run t =
     (case json_dumps DateTimeEncoder_default db_instance of
        Inl ex \<Rightarrow> (Inl ex, t)
      | Inr text \<Rightarrow>
          (let t1 = t @ [Print [Lit ''Stopping DB: '', Subst (PStr text)]]
           in if dry_run then stop_rds_dbs P rest dry_run t1
              else (case py_getitem db_instance ''DBInstanceStatus'' of
                      Inl ex \<Rightarrow> (Inl ex, t1)
                    | Inr status \<Rightarrow>
                        (if status = PStr ''stopped'' then
                           (case py_getitem db_instance ''DBInstanceIdentifier'' of
                              Inl ex \<Rightarrow> (Inl ex, t1)
                            | Inr ident \<Rightarrow>
                                stop_rds_dbs P rest dry_run
                                  (t1 @ [Print [Lit ''DB Instance '', Subst ident,
                                                Lit '' is stopped'']]))
                         else
                           (case py_getitem db_instance ''DBInstanceIdentifier'' of
                              Inl ex \<Rightarrow> (Inl ex, t1)
                            | Inr ident \<Rightarrow>
                                (let t2 = t1 @ [RdsStopDbInstance ident]
                                 in case rds_stop_db_instance P t1 ident of
                                      None \<Rightarrow> stop_rds_dbs P rest dry_run t2
                                    | Some ex \<Rightarrow> (Inl ex, t2)))))))"

section \<open>The entry point\<close>

text \<open>The event and the context of the invocation are not read.\<close>

definition lambda_handler :: "provider \<Rightarrow> pyval \<Rightarrow> pyval \<Rightarrow> trace \<Rightarrow> unit result" where
  "lambda_handler P event ctx t =
     (let t1 = t @ [Print [Lit ''getting vm list'']]
      in case get_ec2_vm_list P t1 of
           (Inl ex, t2) \<Rightarrow> (Inl ex, t2)
         | (Inr vm_list, t2) \<Rightarrow>
             (let t3 = t2 @ [Print [Lit ''got ec2 list'']]
              in case turnoff_ec2_vms P vm_list False t3 of
                   (Inl ex, t4) \<Rightarrow> (Inl ex, t4)
                 | (Inr u, t4) \<Rightarrow>
                     (case get_rds_db_list P t4 of
                        (Inl ex, t5) \<Rightarrow> (Inl ex, t5)
                      | (Inr db_list, t5) \<Rightarrow> stop_rds_dbs P db_list False t5)))"

section \<open>Vocabulary for the properties\<close>

text \<open>A string is plain when the encoder copies every character of it unchanged.\<close>

definition plain :: "string \<Rightarrow> bool" where
  "plain s \<longleftrightarrow> list_all (\<lambda>c. \<not> needs_escape c) s"

text \<open>\<open>within v r\<close>: the value \<open>v\<close> is \<open>r\<close> itself, or a field or an element of \<open>r\<close>,
  at any depth.\<close>

fun within :: "pyval \<Rightarrow> pyval \<Rightarrow> bool"
  and within_list :: "pyval \<Rightarrow> pyval list \<Rightarrow> bool"
  and within_dict :: "pyval \<Rightarrow> (string \<times> pyval) list \<Rightarrow> bool"
where
  "within v (PList xs) = (v = PList xs \<or> within_list v xs)"
| "within v (PDict kvs) = (v = PDict kvs \<or> within_dict v kvs)"
| "within v PNone = (v = PNone)"
| "within v (PBool b) = (v = PBool b)"
| "within v (PInt i) = (v = PInt i)"
| "within v (PStr s) = (v = PStr s)"
| "within v (PDate d) = (v = PDate d)"
| "within v (PDateTime dt) = (v = PDateTime dt)"
| "within v (PObject x) = (v = PObject x)"
| "within_list v [] = False"
| "within_list v (x # xs) = (within v x \<or> within_list v xs)"
| "within_dict v [] = False"
| "within_dict v (kv # kvs) = (within v (snd kv) \<or> within_dict v kvs)"

text \<open>The calls to the provider in a trace, in order: everything but the printed lines.\<close>

fun is_provider_call :: "event \<Rightarrow> bool" where
  "is_provider_call (Print parts) = False"
| "is_provider_call _ = True"

definition provider_calls :: "trace \<Rightarrow> event list" where
  "provider_calls t = filter is_provider_call t"

text \<open>The stop request for one instance: \<^verbatim>\<open>stop(Hibernate=False, DryRun=dry_run)\<close>.\<close>

definition stop_request :: "bool \<Rightarrow> ec2_instance \<Rightarrow> event" where
  "stop_request dry_run inst = Ec2InstanceStop (instance_id inst) False dry_run"

text \<open>
  The stop calls the specification asks for one database record: none when its status is
  the string \<^verbatim>\<open>stopped\<close>, one call keyed by its identifier for any other status (and none
  for a value without these fields).
\<close>

definition expected_db_stop_calls :: "pyval \<Rightarrow> event list" where
  "expected_db_stop_calls r =
     (case py_getitem r ''DBInstanceStatus'' of
        Inl ex \<Rightarrow> []
      | Inr status \<Rightarrow>
          (if status = PStr ''stopped'' then []
           else (case py_getitem r ''DBInstanceIdentifier'' of
                   Inl ex \<Rightarrow> []
                 | Inr ident \<Rightarrow> [RdsStopDbInstance ident])))"

text \<open>
  \<open>nullify r\<close> is \<open>r\<close> with every object that is neither JSON-native nor temporal
  replaced by \<^verbatim>\<open>None\<close>.
\<close>

fun nullify :: "pyval \<Rightarrow> pyval"
  and nullify_list :: "pyval list \<Rightarrow> pyval list"
  and nullify_dict :: "(string \<times> pyval) list \<Rightarrow> (string \<times> pyval) list"
where
  "nullify (PObject x) = PNone"
| "nullify (PList xs) = PList (nullify_list xs)"
| "nullify (PDict kvs) = PDict (nullify_dict kvs)"
| "nullify PNone = PNone"
| "nullify (PBool b) = PBool b"
| "nullify (PInt i) = PInt i"
| "nullify (PStr s) = PStr s"
| "nullify (PDate d) = PDate d"
| "nullify (PDateTime dt) = PDateTime dt"
| "nullify_list [] = []"
| "nullify_list (x # xs) = nullify x # nullify_list xs"
| "nullify_dict [] = []"
| "nullify_dict (kv # kvs) = (fst kv, nullify (snd kv)) # nullify_dict kvs"

text \<open>A listing cut into pages of at most \<open>n\<close> items each.\<close>

fun pages_of :: "nat \<Rightarrow> 'a list \<Rightarrow> 'a list list" where
  "pages_of n xs = (if n = 0 \<or> xs = [] then [] else take n xs # pages_of n (drop n xs))"

declare pages_of.simps [simp del]

section \<open>Example inputs\<close>

definition example_datetime :: datetime where
  "example_datetime =
     \<lparr>year = 2024, month = 3, day = 7, hour = 9, minute = 5, second = 0, microsecond = 0,
      utcoffset = Some 0\<rparr>"

definition example_db_record :: pyval where
  "example_db_record =
     PDict [(''DBInstanceIdentifier'', PStr ''db-1''),
            (''DBInstanceStatus'', PStr ''available''),
            (''InstanceCreateTime'', PDateTime example_datetime)]"

definition example_vms :: "ec2_instance list" where
  "example_vms = [\<lparr>instance_id = ''i-1''\<rparr>, \<lparr>instance_id = ''i-2''\<rparr>, \<lparr>instance_id = ''i-3''\<rparr>]"

definition example_stopped_record :: pyval where
  "example_stopped_record =
     PDict [(''DBInstanceIdentifier'', PStr ''db-0''), (''DBInstanceStatus'', PStr ''stopped'')]"

definition example_other_record :: pyval where
  "example_other_record =
     PDict [(''DBInstanceIdentifier'', PStr ''db-2''), (''DBInstanceStatus'', PStr ''available'')]"

definition example_pages :: "pyval list" where
  "example_pages =
     [PDict [(''DBInstances'', PList [example_stopped_record])],
      PDict [(''DBInstances'', PList [example_db_record, example_other_record])]]"

definition quiet_provider :: provider where
  "quiet_provider =
     \<lparr>ec2_instances_filter = (\<lambda>t fs n. (example_vms, None)),
      instance_stop = (\<lambda>t i h d. None),
      rds_paginate = (\<lambda>t op. (example_pages, None)),
      rds_stop_db_instance = (\<lambda>t v. None)\<rparr>"

definition denying_provider :: provider where
  "denying_provider =
     quiet_provider\<lparr>instance_stop :=
       (\<lambda>t i h d. if instance_id i = ''i-2'' then Some (ClientError ''UnauthorizedOperation'')
                   else None)\<rparr>"


definition faulty_rds_provider :: provider where
  "faulty_rds_provider =
     quiet_provider\<lparr>rds_stop_db_instance :=
       (\<lambda>t v. Some (ClientError ''InvalidDBInstanceState''))\<rparr>"

text \<open>
  A provider whose stop call raises a client error for \<^verbatim>\<open>i-1\<close> and a connection error,
  which is not a client error, for \<^verbatim>\<open>i-2\<close>.
\<close>

definition flaky_provider :: provider where
  "flaky_provider =
     quiet_provider\<lparr>instance_stop :=
       (\<lambda>t i h d.
          if instance_id i = ''i-1'' then Some (ClientError ''UnauthorizedOperation'')
          else if instance_id i = ''i-2'' then Some (OtherException ''EndpointConnectionError'')
          else None)\<rparr>"

text \<open>
  An account with 21 running instances. The listing honours \<^verbatim>\<open>MaxResults\<close> as the size
  of one page, and the collection iterates over all the pages, as the resource API does.
\<close>

definition crowded_vms :: "ec2_instance list" where
  "crowded_vms = map (\<lambda>k. \<lparr>instance_id = ''i-'' @ dec k\<rparr>) [0..<21]"

definition crowded_provider :: provider where
  "crowded_provider =
     quiet_provider\<lparr>ec2_instances_filter :=
       (\<lambda>t fs n. (concat (pages_of n crowded_vms), None))\<rparr>"

section \<open>Properties of the encoder\<close>

lemma append_each_eq: "append_each result xs = result @ xs"
  by (induction xs arbitrary: result) simp_all

lemma digit_char_plain: "n < 10 \<Longrightarrow> \<not> needs_escape (digit_char n)"
proof -
  assume "n < 10"
  then consider "n = 0" | "n = 1" | "n = 2" | "n = 3" | "n = 4" | "n = 5" | "n = 6" | "n = 7" | "n = 8" | "n = 9"
    by atomize_elim arith
  then show ?thesis
    by cases (simp_all add: digit_char_def needs_escape_def char_of_eq_iff)
qed

lemma plain_Nil [simp]: "plain []"
  by (simp add: plain_def)
lemma plain_append [simp]: "plain (xs @ ys) \<longleftrightarrow> plain xs \<and> plain ys"
  by (auto simp: plain_def)
lemma plain_Cons [simp]: "plain (c # cs) \<longleftrightarrow> \<not> needs_escape c \<and> plain cs"
  by (simp add: plain_def)

lemma plain_dec: "plain (dec n)"
proof (induction n rule: dec.induct)
  case (1 n)
  show ?case
  proof (cases "n < 10")
    case True
    then show ?thesis by (subst dec.simps) (simp add: digit_char_plain)
  next
    case False
    with 1 show ?thesis by (subst dec.simps) (simp add: digit_char_plain)
  qed
qed

lemma plain_zero_pad: "plain (zero_pad w n)"
  by (simp add: zero_pad_def plain_dec) (simp add: plain_def needs_escape_def list_all_iff)

lemma plain_puncts: "\<not> needs_escape CHR ''-''" "\<not> needs_escape CHR '':''" "\<not> needs_escape CHR ''T''"
  "\<not> needs_escape CHR ''.''" "\<not> needs_escape CHR ''+''"
  by (simp_all add: needs_escape_def)

lemma plain_date_isoformat: "plain (date_isoformat d)"
  by (simp add: date_isoformat_def plain_zero_pad plain_puncts)

lemma plain_format_time: "plain (format_time h m s u)"
  by (simp add: format_time_def plain_zero_pad plain_puncts)

lemma plain_format_offset: "plain (format_offset off)"
proof (cases off)
  case None
  then show ?thesis by (simp add: format_offset_def)
next
  case (Some u)
  have sign: "plain (if u < 0 then ''-'' else ''+'')"
    by (simp add: plain_puncts)
  have tail: "plain (if c then '':'' @ zero_pad 2 a @ (if c' then ''.'' @ zero_pad 6 b else [])
                     else [])" for c c' a b
    by (simp add: plain_zero_pad plain_puncts)
  show ?thesis
    unfolding Some format_offset_def Let_def option.case plain_append
    by (intro conjI sign tail plain_zero_pad) (simp_all only: plain_Cons plain_Nil plain_puncts simp_thms)
qed

lemma plain_datetime_isoformat: "plain (datetime_isoformat dt)"
  by (simp add: datetime_isoformat_def plain_date_isoformat plain_format_time plain_format_offset plain_puncts)

lemma plain_isoformat: "plain (isoformat v)"
  by (cases v) (simp_all add: plain_date_isoformat plain_datetime_isoformat)

lemma concat_plain: "plain s \<Longrightarrow> concat (map (\<lambda>c. if needs_escape c then replace_char c else [c]) s) = s"
  by (induction s) simp_all

lemma encode_plain: "plain s \<Longrightarrow> encode_basestring_ascii s = CHR 0x22 # s @ [CHR 0x22]"
  by (simp add: encode_basestring_ascii_def concat_plain)


lemma DateTimeEncoder_total_aux:
  "(0 < k \<longrightarrow> (\<exists>out. iterencode k DateTimeEncoder_default v = Inr out))"
  "(0 < k \<longrightarrow> (\<exists>out. iterencode_list k DateTimeEncoder_default xs = Inr out))"
  "(0 < k \<longrightarrow> (\<exists>out. iterencode_dict k DateTimeEncoder_default kvs = Inr out))"
proof (induction k "DateTimeEncoder_default" v and k "DateTimeEncoder_default" xs and k "DateTimeEncoder_default" kvs
    rule: iterencode_iterencode_list_iterencode_dict.induct)
qed (auto simp: DateTimeEncoder_default_def split: nat.splits sum.splits)

lemma iterencode_temporal:
  "is_temporal v \<Longrightarrow> iterencode (Suc k) DateTimeEncoder_default v = Inr (CHR 0x22 # isoformat v @ [CHR 0x22])"
  by (cases v) (simp_all add: DateTimeEncoder_default_def encode_plain plain_date_isoformat plain_datetime_isoformat)

lemma sublist_wrap: "sublist xs ys \<Longrightarrow> sublist xs (ps @ ys @ ss)"
proof -
  assume "sublist xs ys"
  then obtain p s where "ys = p @ xs @ s" by (auto simp: sublist_def)
  then have "ps @ ys @ ss = (ps @ p) @ xs @ (s @ ss)" by simp
  then show ?thesis unfolding sublist_def by blast
qed

lemma sublist_wrap_left: "sublist xs ys \<Longrightarrow> sublist xs (ps @ ys)"
  using sublist_wrap [of xs ys ps "[]"] by simp

lemma sublist_wrap_right: "sublist xs ys \<Longrightarrow> sublist xs (ys @ ss)"
  using sublist_wrap [of xs ys "[]" ss] by simp

lemma iterencode_list_sublist:
  "x \<in> set xs \<Longrightarrow> iterencode_list k dflt xs = Inr body \<Longrightarrow>
     \<exists>tx. iterencode k dflt x = Inr tx \<and> sublist tx body"
proof (induction xs arbitrary: body)
  case Nil
  then show ?case by simp
next
  case (Cons y ys)
  from Cons.prems(2) obtain ty where ty: "iterencode k dflt y = Inr ty"
    by (auto split: sum.splits)
  show ?case
  proof (cases "ys = []")
    case True
    with Cons.prems ty show ?thesis by auto
  next
    case False
    with Cons.prems(2) ty obtain rest where
      rest: "iterencode_list k dflt ys = Inr rest" and body: "body = ty @ item_separator @ rest"
      by (auto split: sum.splits)
    show ?thesis
    proof (cases "x = y")
      case True
      with ty body show ?thesis by auto
    next
      case False
      with Cons.prems(1) have "x \<in> set ys" by simp
      from Cons.IH [OF this rest] obtain tx where
        tx: "iterencode k dflt x = Inr tx" "sublist tx rest" by blast
      from tx(2) have "sublist tx body"
        unfolding body by (intro sublist_wrap_left)
      with tx(1) show ?thesis by blast
    qed
  qed
qed

lemma iterencode_dict_sublist:
  "kv \<in> set kvs \<Longrightarrow> iterencode_dict k dflt kvs = Inr body \<Longrightarrow>
     \<exists>tv. iterencode k dflt (snd kv) = Inr tv \<and> sublist tv body"
proof (induction kvs arbitrary: body)
  case Nil
  then show ?case by simp
next
  case (Cons y ys)
  from Cons.prems(2) obtain ty where ty: "iterencode k dflt (snd y) = Inr ty"
    by (auto split: sum.splits)
  show ?case
  proof (cases "ys = []")
    case True
    with Cons.prems ty show ?thesis by (auto intro: sublist_wrap_left)
  next
    case False
    with Cons.prems(2) ty obtain rest where
      rest: "iterencode_dict k dflt ys = Inr rest" and
      body: "body = encode_basestring_ascii (fst y) @ key_separator @ ty @ item_separator @ rest"
      by (auto split: sum.splits)
    show ?thesis
    proof (cases "kv = y")
      case True
      have "sublist ty (ty @ item_separator @ rest)" by simp
      then have "sublist ty (key_separator @ ty @ item_separator @ rest)"
        by (rule sublist_wrap_left)
      then have "sublist ty body"
        unfolding body by (rule sublist_wrap_left)
      with ty True show ?thesis by auto
    next
      case False
      with Cons.prems(1) have "kv \<in> set ys" by simp
      from Cons.IH [OF this rest] obtain tv where
        tv: "iterencode k dflt (snd kv) = Inr tv" "sublist tv rest" by blast
      from tv(2) have "sublist tv body"
        unfolding body by (intro sublist_wrap_left)
      with tv(1) show ?thesis by blast
    qed
  qed
qed

lemma sublist_trans: "sublist xs ys \<Longrightarrow> sublist ys zs \<Longrightarrow> sublist xs zs"
proof -
  assume "sublist xs ys" and "sublist ys zs"
  then obtain p s p' s' where "ys = p @ xs @ s" "zs = p' @ ys @ s'"
    by (auto simp: sublist_def)
  then have "zs = (p' @ p) @ xs @ (s @ s')" by simp
  then show ?thesis unfolding sublist_def by blast
qed

lemma within_sublist:
  "within v r \<Longrightarrow> iterencode k dflt r = Inr out \<Longrightarrow>
     \<exists>tv. iterencode k dflt v = Inr tv \<and> sublist tv out"
  "within_list v xs \<Longrightarrow> iterencode_list k dflt xs = Inr out \<Longrightarrow>
     \<exists>tv. iterencode k dflt v = Inr tv \<and> sublist tv out"
  "within_dict v kvs \<Longrightarrow> iterencode_dict k dflt kvs = Inr out \<Longrightarrow>
     \<exists>tv. iterencode k dflt v = Inr tv \<and> sublist tv out"
proof (induction v r and v xs and v kvs arbitrary: out and out and out
    rule: within_within_list_within_dict.induct)
  case (1 v xs)
  show ?case
  proof (cases "v = PList xs")
    case True
    with "1.prems"(2) show ?thesis by auto
  next
    case False
    with "1.prems"(1) have w: "within_list v xs" by simp
    from "1.prems"(2) obtain body where
      body: "iterencode_list k dflt xs = Inr body" and out: "out = ''['' @ body @ '']''"
      by (auto split: sum.splits)
    from "1.IH" [OF w body] obtain tv where
      tv: "iterencode k dflt v = Inr tv" "sublist tv body" by blast
    from tv(2) have "sublist tv out" unfolding out by (rule sublist_wrap)
    with tv(1) show ?thesis by blast
  qed
next
  case (2 v kvs)
  show ?case
  proof (cases "v = PDict kvs")
    case True
    with "2.prems"(2) show ?thesis by auto
  next
    case False
    with "2.prems"(1) have w: "within_dict v kvs" by simp
    from "2.prems"(2) obtain body where
      body: "iterencode_dict k dflt kvs = Inr body" and out: "out = ''{'' @ body @ ''}''"
      by (auto split: sum.splits)
    from "2.IH" [OF w body] obtain tv where
      tv: "iterencode k dflt v = Inr tv" "sublist tv body" by blast
    from tv(2) have "sublist tv out" unfolding out by (rule sublist_wrap)
    with tv(1) show ?thesis by blast
  qed
next
  case (11 v x xs)
  from "11.prems"(1) consider "within v x" | "within_list v xs" by auto
  then show ?case
  proof cases
    case 1
    from iterencode_list_sublist [of x "x # xs", OF _ "11.prems"(2)] obtain tx where
      tx: "iterencode k dflt x = Inr tx" "sublist tx out" by auto
    from "11.IH"(1) [OF 1 tx(1)] obtain tv where
      "iterencode k dflt v = Inr tv" "sublist tv tx" by blast
    with tx(2) show ?thesis by (blast intro: sublist_trans)
  next
    case 2
    then have ne: "xs \<noteq> []" by auto
    with "11.prems"(2) obtain tx rest where
      rest: "iterencode_list k dflt xs = Inr rest" and out: "out = tx @ item_separator @ rest"
      by (auto split: sum.splits)
    from "11.IH"(2) [OF 2 rest] obtain tv where
      tv: "iterencode k dflt v = Inr tv" "sublist tv rest" by blast
    from tv(2) have "sublist tv out" unfolding out by (intro sublist_wrap_left)
    with tv(1) show ?thesis by blast
  qed
next
  case (13 v kv kvs)
  from "13.prems"(1) consider "within v (snd kv)" | "within_dict v kvs" by auto
  then show ?case
  proof cases
    case 1
    from iterencode_dict_sublist [of kv "kv # kvs", OF _ "13.prems"(2)] obtain tx where
      tx: "iterencode k dflt (snd kv) = Inr tx" "sublist tx out" by auto
    from "13.IH"(1) [OF 1 tx(1)] obtain tv where
      "iterencode k dflt v = Inr tv" "sublist tv tx" by blast
    with tx(2) show ?thesis by (blast intro: sublist_trans)
  next
    case 2
    then have ne: "kvs \<noteq> []" by auto
    with "13.prems"(2) obtain tx rest where
      rest: "iterencode_dict k dflt kvs = Inr rest" and
      out: "out = encode_basestring_ascii (fst kv) @ key_separator @ tx @ item_separator @ rest"
      by (auto split: sum.splits)
    from "13.IH"(2) [OF 2 rest] obtain tv where
      tv: "iterencode k dflt v = Inr tv" "sublist tv rest" by blast
    from tv(2) have "sublist tv out" unfolding out by (intro sublist_wrap_left)
    with tv(1) show ?thesis by blast
  qed
qed auto

lemma json_dumps_DateTimeEncoder_total: "\<exists>out. json_dumps DateTimeEncoder_default r = Inr out"
  using DateTimeEncoder_total_aux(1) [of recursion_limit r]
  by (simp add: json_dumps_def recursion_limit_def)


lemma nullify_Nil_iff [simp]: "nullify_list xs = [] \<longleftrightarrow> xs = []" "nullify_dict kvs = [] \<longleftrightarrow> kvs = []"
  by (cases xs; simp) (cases kvs; simp)

lemma iterencode_nullify:
  "iterencode (Suc k) DateTimeEncoder_default (nullify v) = iterencode (Suc k) DateTimeEncoder_default v"
  "iterencode_list (Suc k) DateTimeEncoder_default (nullify_list xs) = iterencode_list (Suc k) DateTimeEncoder_default xs"
  "iterencode_dict (Suc k) DateTimeEncoder_default (nullify_dict kvs) = iterencode_dict (Suc k) DateTimeEncoder_default kvs"
  by (induction v and xs and kvs rule: nullify_nullify_list_nullify_dict.induct)
     (auto simp: DateTimeEncoder_default_def split: sum.splits)

lemma json_dumps_Suc: "json_dumps dflt v = iterencode (Suc 999) dflt v"
  by (simp add: json_dumps_def recursion_limit_def)

section \<open>Properties of the listers\<close>

lemma drain_pages_concat:
  "list_all2 (\<lambda>page recs. py_getitem page ''DBInstances'' = Inr (PList recs)) pages pss \<Longrightarrow>
     drain_pages pages result = Inr (result @ concat pss)"
  by (induction pages pss arbitrary: result rule: list_all2_induct) (simp_all add: append_each_eq)



section \<open>Properties of the shutdown executor\<close>

lemma provider_calls_simps [simp]:
  "provider_calls [] = []"
  "provider_calls (t @ u) = provider_calls t @ provider_calls u"
  "provider_calls (e # t) = (if is_provider_call e then e # provider_calls t else provider_calls t)"
  by (simp_all add: provider_calls_def)

lemma turnoff_ec2_vms_calls:
  "\<exists>n \<le> length xs.
     provider_calls (snd (turnoff_ec2_vms P xs d t)) =
       provider_calls t @ map (stop_request d) (take n xs) \<and>
     (fst (turnoff_ec2_vms P xs d t) = Inr () \<longrightarrow> n = length xs)"
proof (induction xs arbitrary: t)
  case Nil
  then show ?case by simp
next
  case (Cons x xs)
  let ?t1 = "t @ [Print [Lit ''Stopping VM: '', Subst (PStr (instance_id x))]]"
  let ?t2 = "?t1 @ [Ec2InstanceStop (instance_id x) False d]"
  show ?case
  proof (cases "instance_stop P ?t1 x False d")
    case None
    from Cons.IH [of ?t2] obtain n where n: "n \<le> length xs"
      "provider_calls (snd (turnoff_ec2_vms P xs d ?t2)) =
         provider_calls ?t2 @ map (stop_request d) (take n xs)"
      "fst (turnoff_ec2_vms P xs d ?t2) = Inr () \<longrightarrow> n = length xs" by blast
    with None show ?thesis
      by (intro exI [of _ "Suc n"]) (simp add: stop_request_def)
  next
    case (Some ex)
    show ?thesis
    proof (cases ex)
      case (ClientError msg)
      let ?t3 = "?t2 @ [Print [Lit ''Exception: '', SubstExn (ClientError msg)]]"
      from Cons.IH [of ?t3] obtain n where n: "n \<le> length xs"
        "provider_calls (snd (turnoff_ec2_vms P xs d ?t3)) =
           provider_calls ?t3 @ map (stop_request d) (take n xs)"
        "fst (turnoff_ec2_vms P xs d ?t3) = Inr () \<longrightarrow> n = length xs" by blast
      with Some ClientError show ?thesis
        by (intro exI [of _ "Suc n"]) (simp add: stop_request_def)
    qed (use Some in \<open>auto intro!: exI [of _ "Suc 0"] simp: stop_request_def\<close>)
  qed
qed

lemma turnoff_ec2_vms_complete:
  assumes "\<forall>t' i ex. instance_stop P t' i False d = Some ex \<longrightarrow> (\<exists>msg. ex = ClientError msg)"
  shows "fst (turnoff_ec2_vms P xs d t) = Inr ()"
proof (induction xs arbitrary: t)
  case Nil
  then show ?case by simp
next
  case (Cons x xs)
  let ?t1 = "t @ [Print [Lit ''Stopping VM: '', Subst (PStr (instance_id x))]]"
  show ?case
  proof (cases "instance_stop P ?t1 x False d")
    case None
    with Cons.IH show ?thesis by simp
  next
    case (Some ex)
    with assms obtain msg where "ex = ClientError msg" by blast
    with Some Cons.IH show ?thesis by simp
  qed
qed


lemma stop_rds_dbs_dry_run:
  "\<exists>lines. length lines = length rs \<and>
     stop_rds_dbs P rs True t =
       (Inr (), t @ map (\<lambda>s. Print [Lit ''Stopping DB: '', Subst (PStr s)]) lines)"
proof (induction rs arbitrary: t)
  case Nil
  then show ?case by simp
next
  case (Cons r rs)
  obtain out where out: "json_dumps DateTimeEncoder_default r = Inr out"
    using json_dumps_DateTimeEncoder_total by blast
  let ?t1 = "t @ [Print [Lit ''Stopping DB: '', Subst (PStr out)]]"
  from Cons.IH [of ?t1] obtain lines where lines: "length lines = length rs"
    "stop_rds_dbs P rs True ?t1 =
       (Inr (), ?t1 @ map (\<lambda>s. Print [Lit ''Stopping DB: '', Subst (PStr s)]) lines)" by blast
  with out show ?case
    by (intro exI [of _ "out # lines"]) (simp add: Let_def)
qed

lemma stop_rds_dbs_calls:
  "\<exists>n \<le> length rs.
     provider_calls (snd (stop_rds_dbs P rs False t)) =
       provider_calls t @ concat (map expected_db_stop_calls (take n rs)) \<and>
     (fst (stop_rds_dbs P rs False t) = Inr () \<longrightarrow> n = length rs)"
proof (induction rs arbitrary: t)
  case Nil
  then show ?case by simp
next
  case (Cons r rs)
  obtain out where out: "json_dumps DateTimeEncoder_default r = Inr out"
    using json_dumps_DateTimeEncoder_total by blast
  let ?t1 = "t @ [Print [Lit ''Stopping DB: '', Subst (PStr out)]]"
  have stop_here: ?case
    if "fst (stop_rds_dbs P (r # rs) False t) \<noteq> Inr ()"
      and "provider_calls (snd (stop_rds_dbs P (r # rs) False t)) =
             provider_calls t @ expected_db_stop_calls r"
    using that by (intro exI [of _ "Suc 0"]) simp
  have go_on: ?case
    if "stop_rds_dbs P (r # rs) False t = stop_rds_dbs P rs False t'"
      and "provider_calls t' = provider_calls t @ expected_db_stop_calls r" for t'
  proof -
    from Cons.IH [of t'] obtain n where n: "n \<le> length rs"
      "provider_calls (snd (stop_rds_dbs P rs False t')) =
         provider_calls t' @ concat (map expected_db_stop_calls (take n rs))"
      "fst (stop_rds_dbs P rs False t') = Inr () \<longrightarrow> n = length rs" by blast
    with that show ?thesis
      by (intro exI [of _ "Suc n"]) simp
  qed
  show ?case
  proof (cases "py_getitem r ''DBInstanceStatus''")
    case (Inl ex)
    with out show ?thesis
      by (intro stop_here) (simp_all add: expected_db_stop_calls_def Let_def)
  next
    case status: (Inr status)
    show ?thesis
    proof (cases "py_getitem r ''DBInstanceIdentifier''")
      case (Inl ex)
      with out status show ?thesis
        by (intro stop_here) (simp_all add: expected_db_stop_calls_def Let_def)
    next
      case ident: (Inr ident)
      show ?thesis
      proof (cases "status = PStr ''stopped''")
        case True
        with out status ident show ?thesis
          by (intro go_on [of "?t1 @ [Print [Lit ''DB Instance '', Subst ident, Lit '' is stopped'']]"])
             (simp_all add: expected_db_stop_calls_def Let_def)
      next
        case False
        show ?thesis
        proof (cases "rds_stop_db_instance P ?t1 ident")
          case None
          with out status ident False show ?thesis
            by (intro go_on [of "?t1 @ [RdsStopDbInstance ident]"])
               (simp_all add: expected_db_stop_calls_def Let_def)
        next
          case (Some ex)
          with out status ident False show ?thesis
            by (intro stop_here) (simp_all add: expected_db_stop_calls_def Let_def)
        qed
      qed
    qed
  qed
qed

lemma stop_rds_dbs_Cons:
  "stop_rds_dbs P (r # rs) d t =
     (case stop_rds_dbs P [r] d t of
        (Inl ex, t') \<Rightarrow> (Inl ex, t')
      | (Inr u, t') \<Rightarrow> stop_rds_dbs P rs d t')"
  by (simp add: Let_def split: sum.splits option.splits)

lemma stop_rds_dbs_append:
  "stop_rds_dbs P (pre @ post) d t =
     (case stop_rds_dbs P pre d t of
        (Inl ex, t') \<Rightarrow> (Inl ex, t')
      | (Inr u, t') \<Rightarrow> stop_rds_dbs P post d t')"
proof (induction pre arbitrary: t)
  case Nil
  then show ?case by simp
next
  case (Cons r pre)
  obtain res t' where body: "stop_rds_dbs P [r] d t = (res, t')"
    by (cases "stop_rds_dbs P [r] d t") blast
  show ?case
  proof (cases res)
    case (Inl ex)
    with body stop_rds_dbs_Cons [of P r pre d t] stop_rds_dbs_Cons [of P r "pre @ post" d t]
    show ?thesis by (simp del: stop_rds_dbs.simps)
  next
    case (Inr u)
    with body stop_rds_dbs_Cons [of P r pre d t] stop_rds_dbs_Cons [of P r "pre @ post" d t]
      Cons.IH [of t']
    show ?thesis by (simp del: stop_rds_dbs.simps)
  qed
qed

lemma turnoff_ec2_vms_Cons:
  "turnoff_ec2_vms P (x # xs) d t =
     (case turnoff_ec2_vms P [x] d t of
        (Inl ex, t') \<Rightarrow> (Inl ex, t')
      | (Inr u, t') \<Rightarrow> turnoff_ec2_vms P xs d t')"
  by (simp add: Let_def split: option.splits exn.splits)


lemma turnoff_ec2_vms_returns:
  assumes "fst (turnoff_ec2_vms P xs d t) = Inr ()"
  shows "provider_calls (snd (turnoff_ec2_vms P xs d t)) =
           provider_calls t @ map (stop_request d) xs"
  using turnoff_ec2_vms_calls [of xs P d t] assms by auto

lemma stop_rds_dbs_returns:
  assumes "fst (stop_rds_dbs P rs False t) = Inr ()"
  shows "provider_calls (snd (stop_rds_dbs P rs False t)) =
           provider_calls t @ concat (map expected_db_stop_calls rs)"
  using stop_rds_dbs_calls [of rs P t] assms by auto


lemma turnoff_ec2_vms_append:
  "turnoff_ec2_vms P (pre @ post) d t =
     (case turnoff_ec2_vms P pre d t of
        (Inl ex, t') \<Rightarrow> (Inl ex, t')
      | (Inr u, t') \<Rightarrow> turnoff_ec2_vms P post d t')"
proof (induction pre arbitrary: t)
  case Nil
  then show ?case by simp
next
  case (Cons x pre)
  obtain res t' where body: "turnoff_ec2_vms P [x] d t = (res, t')"
    by (cases "turnoff_ec2_vms P [x] d t") blast
  show ?case
  proof (cases res)
    case (Inl ex)
    with body turnoff_ec2_vms_Cons [of P x pre d t] turnoff_ec2_vms_Cons [of P x "pre @ post" d t]
    show ?thesis by (simp del: turnoff_ec2_vms.simps)
  next
    case (Inr u)
    with body turnoff_ec2_vms_Cons [of P x pre d t] turnoff_ec2_vms_Cons [of P x "pre @ post" d t]
      Cons.IH [of t']
    show ?thesis by (simp del: turnoff_ec2_vms.simps)
  qed
qed

lemma turnoff_ec2_vms_complete_on:
  assumes "\<forall>t' i ex. i \<in> set xs \<and> instance_stop P t' i False d = Some ex \<longrightarrow>
             (\<exists>msg. ex = ClientError msg)"
  shows "fst (turnoff_ec2_vms P xs d t) = Inr ()"
  using assms
proof (induction xs arbitrary: t)
  case Nil
  then show ?case by simp
next
  case (Cons x xs)
  let ?t1 = "t @ [Print [Lit ''Stopping VM: '', Subst (PStr (instance_id x))]]"
  from Cons.prems have rest:
    "\<forall>t' i ex. i \<in> set xs \<and> instance_stop P t' i False d = Some ex \<longrightarrow>
       (\<exists>msg. ex = ClientError msg)" by auto
  show ?case
  proof (cases "instance_stop P ?t1 x False d")
    case None
    with Cons.IH [OF rest] show ?thesis by simp
  next
    case (Some ex)
    with Cons.prems obtain msg where "ex = ClientError msg"
      by (metis list.set_intros(1))
    with Some Cons.IH [OF rest] show ?thesis by simp
  qed
qed

lemma turnoff_ec2_vms_all_calls:
  assumes "\<forall>t' i ex. instance_stop P t' i False d = Some ex \<longrightarrow> (\<exists>msg. ex = ClientError msg)"
  shows "provider_calls (snd (turnoff_ec2_vms P xs d t)) =
           provider_calls t @ map (stop_request d) xs"
proof -
  from turnoff_ec2_vms_calls [of xs P d t] obtain n where
    "provider_calls (snd (turnoff_ec2_vms P xs d t)) =
       provider_calls t @ map (stop_request d) (take n xs)"
    "fst (turnoff_ec2_vms P xs d t) = Inr () \<longrightarrow> n = length xs" by blast
  with turnoff_ec2_vms_complete [OF assms, of xs t] show ?thesis by simp
qed

section \<open>Properties of the entry point and of the examples\<close>

lemma lambda_handler_last_stage:
  assumes "get_ec2_vm_list P (t @ [Print [Lit ''getting vm list'']]) = (Inr vm_list, t1)"
    and "turnoff_ec2_vms P vm_list False (t1 @ [Print [Lit ''got ec2 list'']]) = (Inr (), t2)"
    and "get_rds_db_list P t2 = (Inr db_list, t3)"
  shows "lambda_handler P event ctx t = stop_rds_dbs P db_list False t3"
  using assms by (simp add: lambda_handler_def)

lemma example_fields:
  "py_getitem example_stopped_record ''DBInstanceStatus'' = Inr (PStr ''stopped'')"
  "py_getitem example_stopped_record ''DBInstanceIdentifier'' = Inr (PStr ''db-0'')"
  "py_getitem example_db_record ''DBInstanceStatus'' = Inr (PStr ''available'')"
  "py_getitem example_db_record ''DBInstanceIdentifier'' = Inr (PStr ''db-1'')"
  "py_getitem example_other_record ''DBInstanceStatus'' = Inr (PStr ''available'')"
  "py_getitem example_other_record ''DBInstanceIdentifier'' = Inr (PStr ''db-2'')"
  by (simp_all add: example_stopped_record_def example_db_record_def example_other_record_def)

lemma example_listing:
  assumes "ec2_instances_filter P = (\<lambda>t fs n. (example_vms, None))"
    and "rds_paginate P = (\<lambda>t op. (example_pages, None))"
  shows "\<exists>t'. get_ec2_vm_list P t = (Inr example_vms, t')"
    and "\<exists>t'. get_rds_db_list P t =
           (Inr [example_stopped_record, example_db_record, example_other_record], t')"
  using assms
  by (simp_all add: get_ec2_vm_list_def get_rds_db_list_def Let_def append_each_eq example_pages_def)

lemma example_turnoff:
  assumes "instance_stop P = (\<lambda>t i h d. None)"
  shows "\<exists>t'. turnoff_ec2_vms P xs d t = (Inr (), t')"
  using assms by (induction xs arbitrary: t) simp_all

lemma example_records_ok:
  "fst (stop_rds_dbs quiet_provider [example_stopped_record, example_db_record] False []) = Inr ()"
proof -
  obtain a where a: "json_dumps DateTimeEncoder_default example_stopped_record = Inr a"
    using json_dumps_DateTimeEncoder_total by blast
  obtain b where b: "json_dumps DateTimeEncoder_default example_db_record = Inr b"
    using json_dumps_DateTimeEncoder_total by blast
  have "py_getitem example_stopped_record ''DBInstanceStatus'' = Inr (PStr ''stopped'')"
    "py_getitem example_stopped_record ''DBInstanceIdentifier'' = Inr (PStr ''db-0'')"
    "py_getitem example_db_record ''DBInstanceStatus'' = Inr (PStr ''available'')"
    "py_getitem example_db_record ''DBInstanceIdentifier'' = Inr (PStr ''db-1'')"
    by (simp_all add: example_stopped_record_def example_db_record_def)
  with a b show ?thesis
    by (simp add: quiet_provider_def Let_def)
qed

lemma concat_pages_of: "0 < n \<Longrightarrow> concat (pages_of n xs) = xs"
proof (induction n xs rule: pages_of.induct)
  case (1 n xs)
  then show ?case by (subst pages_of.simps) simp
qed

section \<open>The claims\<close>




text \<open>
  Claim C2. With the dry-run flag true, every stop call of the compute path carries
  \<^verbatim>\<open>DryRun=True\<close> (and \<^verbatim>\<open>Hibernate=False\<close>): the calls made are the stop requests, with
  that flag, of the first \<open>n\<close> instances, and of all of them when the function returns. The
  database path returns without a single call to the provider, whatever the records are.
\<close>

theorem dry_run_passed_through:
  "(\<exists>n \<le> length ec2_vm_list.
      provider_calls (snd (turnoff_ec2_vms P ec2_vm_list True t)) =
        provider_calls t @ map (stop_request True) (take n ec2_vm_list) \<and>
      (fst (turnoff_ec2_vms P ec2_vm_list True t) = Inr () \<longrightarrow> n = length ec2_vm_list)) \<and>
   fst (stop_rds_dbs P rds_db_list True t) = Inr () \<and>
   provider_calls (snd (stop_rds_dbs P rds_db_list True t)) = provider_calls t"
proof -
  from stop_rds_dbs_dry_run [of rds_db_list P t] obtain lines where
    "stop_rds_dbs P rds_db_list True t =
       (Inr (), t @ map (\<lambda>s. Print [Lit ''Stopping DB: '', Subst (PStr s)]) lines)" by blast
  then have "fst (stop_rds_dbs P rds_db_list True t) = Inr ()"
    and "provider_calls (snd (stop_rds_dbs P rds_db_list True t)) = provider_calls t"
    by (simp_all add: provider_calls_def filter_map comp_def)
  with turnoff_ec2_vms_calls [of ec2_vm_list P True t] show ?thesis by blast
qed

theorem dry_run_passed_through_witness:
  "provider_calls (snd (turnoff_ec2_vms quiet_provider example_vms True [])) =
     [Ec2InstanceStop ''i-1'' False True, Ec2InstanceStop ''i-2'' False True,
      Ec2InstanceStop ''i-3'' False True] \<and>
   fst (stop_rds_dbs quiet_provider [example_stopped_record, example_db_record] True []) = Inr () \<and>
   provider_calls
     (snd (stop_rds_dbs quiet_provider [example_stopped_record, example_db_record] True [])) = []"
proof -
  have "fst (turnoff_ec2_vms quiet_provider example_vms True []) = Inr ()"
    by (simp add: quiet_provider_def example_vms_def)
  with dry_run_passed_through
    [of example_vms quiet_provider "[]" "[example_stopped_record, example_db_record]"]
  show ?thesis
    by (auto simp: example_vms_def stop_request_def)
qed

text \<open>
  Claim C3. With dry-run false, the stop calls of \<^verbatim>\<open>stop_rds_dbs\<close> are those of the records
  it processed (the first \<open>n\<close> of the list, all of them when it returns), record by record: no
  call for a record whose \<^verbatim>\<open>DBInstanceStatus\<close> is the string \<^verbatim>\<open>stopped\<close>, exactly one call,
  keyed by its \<^verbatim>\<open>DBInstanceIdentifier\<close>, for a record with any other status.
\<close>

theorem stop_rds_dbs_skips_stopped:
  "\<exists>n \<le> length rds_db_list.
     provider_calls (snd (stop_rds_dbs P rds_db_list False t)) =
       provider_calls t @ concat (map expected_db_stop_calls (take n rds_db_list)) \<and>
     (fst (stop_rds_dbs P rds_db_list False t) = Inr () \<longrightarrow> n = length rds_db_list)"
  by (rule stop_rds_dbs_calls)

theorem stop_rds_dbs_skips_stopped_witness:
  "provider_calls (snd (stop_rds_dbs quiet_provider [example_stopped_record, example_db_record]
      False [])) = [RdsStopDbInstance (PStr ''db-1'')]"
proof -
  have "expected_db_stop_calls example_stopped_record = []"
    "expected_db_stop_calls example_db_record = [RdsStopDbInstance (PStr ''db-1'')]"
    by (simp_all add: expected_db_stop_calls_def example_fields)
  with stop_rds_dbs_skips_stopped
    [of "[example_stopped_record, example_db_record]" quiet_provider "[]"]
    example_records_ok
  show ?thesis by auto
qed

text \<open>
  Claim C4, as amended. When the loop reaches an instance and its stop call raises a
  provider client error, the error is caught and logged, and the loop goes on with the
  instances after it, as a loop over them from the trace so extended: a provider client
  error never aborts the loop. If moreover no stop call for an instance after it raises
  anything but a provider client error, the function returns normally and the calls made
  to the provider are the stop requests of all the instances of the list, one each, in the
  order of the list.
\<close>

theorem turnoff_ec2_vms_client_error_continues:
  assumes reached: "turnoff_ec2_vms P pre dry_run t = (Inr (), t1)"
    and raised:
      "instance_stop P
         (t1 @ [Print [Lit ''Stopping VM: '', Subst (PStr (instance_id inst))]])
         inst False dry_run = Some (ClientError msg)"
  shows "turnoff_ec2_vms P (pre @ inst # post) dry_run t =
           turnoff_ec2_vms P post dry_run
             (t1 @ [Print [Lit ''Stopping VM: '', Subst (PStr (instance_id inst))],
                    Ec2InstanceStop (instance_id inst) False dry_run,
                    Print [Lit ''Exception: '', SubstExn (ClientError msg)]]) \<and>
         ((\<forall>t' i ex. i \<in> set post \<and> instance_stop P t' i False dry_run = Some ex \<longrightarrow>
             (\<exists>m. ex = ClientError m)) \<longrightarrow>
          fst (turnoff_ec2_vms P (pre @ inst # post) dry_run t) = Inr () \<and>
          provider_calls (snd (turnoff_ec2_vms P (pre @ inst # post) dry_run t)) =
            provider_calls t @ map (stop_request dry_run) (pre @ inst # post))"
proof -
  let ?t3 = "t1 @ [Print [Lit ''Stopping VM: '', Subst (PStr (instance_id inst))],
                   Ec2InstanceStop (instance_id inst) False dry_run,
                   Print [Lit ''Exception: '', SubstExn (ClientError msg)]]"
  have continues: "turnoff_ec2_vms P (pre @ inst # post) dry_run t =
      turnoff_ec2_vms P post dry_run ?t3"
    using reached raised by (simp add: turnoff_ec2_vms_append)
  have t1: "provider_calls t1 = provider_calls t @ map (stop_request dry_run) pre"
    using turnoff_ec2_vms_returns [of P pre dry_run t] reached by simp
  have "fst (turnoff_ec2_vms P (pre @ inst # post) dry_run t) = Inr () \<and>
      provider_calls (snd (turnoff_ec2_vms P (pre @ inst # post) dry_run t)) =
        provider_calls t @ map (stop_request dry_run) (pre @ inst # post)"
    if later: "\<forall>t' i ex. i \<in> set post \<and> instance_stop P t' i False dry_run = Some ex \<longrightarrow>
        (\<exists>m. ex = ClientError m)"
  proof -
    have ret: "fst (turnoff_ec2_vms P post dry_run ?t3) = Inr ()"
      using later by (rule turnoff_ec2_vms_complete_on)
    from turnoff_ec2_vms_returns [OF ret]
    have "provider_calls (snd (turnoff_ec2_vms P post dry_run ?t3)) =
        provider_calls ?t3 @ map (stop_request dry_run) post" .
    with ret t1 show ?thesis
      unfolding continues by (simp add: stop_request_def)
  qed
  with continues show ?thesis by blast
qed

theorem turnoff_ec2_vms_client_error_continues_witness:
  "turnoff_ec2_vms denying_provider example_vms False [] =
     (Inr (),
      [Print [Lit ''Stopping VM: '', Subst (PStr ''i-1'')],
       Ec2InstanceStop ''i-1'' False False,
       Print [Lit ''Stopping VM: '', Subst (PStr ''i-2'')],
       Ec2InstanceStop ''i-2'' False False,
       Print [Lit ''Exception: '', SubstExn (ClientError ''UnauthorizedOperation'')],
       Print [Lit ''Stopping VM: '', Subst (PStr ''i-3'')],
       Ec2InstanceStop ''i-3'' False False]) \<and>
   provider_calls (snd (turnoff_ec2_vms denying_provider example_vms False [])) =
     [Ec2InstanceStop ''i-1'' False False, Ec2InstanceStop ''i-2'' False False,
      Ec2InstanceStop ''i-3'' False False]"
proof -
  have a: "turnoff_ec2_vms denying_provider [\<lparr>instance_id = ''i-1''\<rparr>] False [] =
      (Inr (), [Print [Lit ''Stopping VM: '', Subst (PStr ''i-1'')],
                Ec2InstanceStop ''i-1'' False False])"
    by (simp add: denying_provider_def quiet_provider_def)
  have b: "instance_stop denying_provider
         ([Print [Lit ''Stopping VM: '', Subst (PStr ''i-1'')],
           Ec2InstanceStop ''i-1'' False False] @
            [Print [Lit ''Stopping VM: '', Subst (PStr (instance_id \<lparr>instance_id = ''i-2''\<rparr>))]])
         \<lparr>instance_id = ''i-2''\<rparr> False False = Some (ClientError ''UnauthorizedOperation'')"
    by (simp add: denying_provider_def quiet_provider_def)
  have c: "\<forall>t' i ex. i \<in> set [\<lparr>instance_id = ''i-3''\<rparr>] \<and>
        instance_stop denying_provider t' i False False = Some ex \<longrightarrow>
        (\<exists>m. ex = ClientError m)"
    by (simp add: denying_provider_def quiet_provider_def)
  have d: "turnoff_ec2_vms denying_provider [\<lparr>instance_id = ''i-3''\<rparr>] False u =
      (Inr (), u @ [Print [Lit ''Stopping VM: '', Subst (PStr ''i-3'')],
                    Ec2InstanceStop ''i-3'' False False])" for u
    by (simp add: denying_provider_def quiet_provider_def)
  from turnoff_ec2_vms_client_error_continues [OF a b, of "[\<lparr>instance_id = ''i-3''\<rparr>]"] c
  show ?thesis
    by (simp add: example_vms_def stop_request_def d denying_provider_def quiet_provider_def)
qed

text \<open>
  Claim C4 as stated fails: the stop call for \<^verbatim>\<open>i-1\<close> raises a provider client error,
  which is caught and logged, but the stop call for \<^verbatim>\<open>i-2\<close> then raises an exception of
  another class, which is not caught. The loop is aborted, and \<^verbatim>\<open>i-3\<close>, an instance after
  the one whose stop raised the client error, gets no stop request.
\<close>

theorem turnoff_ec2_vms_later_foreign_exception_counterexample:
  "turnoff_ec2_vms flaky_provider example_vms False [] =
     (Inl (OtherException ''EndpointConnectionError''),
      [Print [Lit ''Stopping VM: '', Subst (PStr ''i-1'')],
       Ec2InstanceStop ''i-1'' False False,
       Print [Lit ''Exception: '', SubstExn (ClientError ''UnauthorizedOperation'')],
       Print [Lit ''Stopping VM: '', Subst (PStr ''i-2'')],
       Ec2InstanceStop ''i-2'' False False])"
  by (simp add: flaky_provider_def quiet_provider_def example_vms_def)

text \<open>
  Claim C5. When the stop call for one database record raises, the exception leaves
  \<^verbatim>\<open>stop_rds_dbs\<close> at once: the trace ends with that call, so no record after it is printed
  or stopped, and the invocation ends with the same exception.
\<close>

theorem stop_rds_dbs_error_propagates:
  assumes listed: "get_ec2_vm_list P (t @ [Print [Lit ''getting vm list'']]) = (Inr vm_list, t1)"
      "turnoff_ec2_vms P vm_list False (t1 @ [Print [Lit ''got ec2 list'']]) = (Inr (), t2)"
      "get_rds_db_list P t2 = (Inr (pre @ db_instance # post), t3)"
    and pre: "stop_rds_dbs P pre False t3 = (Inr (), t4)"
    and out: "json_dumps DateTimeEncoder_default db_instance = Inr out"
    and status: "py_getitem db_instance ''DBInstanceStatus'' = Inr status"
      "status \<noteq> PStr ''stopped''"
    and ident: "py_getitem db_instance ''DBInstanceIdentifier'' = Inr ident"
    and raised: "rds_stop_db_instance P
        (t4 @ [Print [Lit ''Stopping DB: '', Subst (PStr out)]]) ident = Some ex"
  shows "stop_rds_dbs P (pre @ db_instance # post) False t3 =
           (Inl ex, t4 @ [Print [Lit ''Stopping DB: '', Subst (PStr out)],
                          RdsStopDbInstance ident]) \<and>
         lambda_handler P event ctx t =
           (Inl ex, t4 @ [Print [Lit ''Stopping DB: '', Subst (PStr out)],
                          RdsStopDbInstance ident])"
proof -
  have "stop_rds_dbs P (pre @ db_instance # post) False t3 =
      (Inl ex, t4 @ [Print [Lit ''Stopping DB: '', Subst (PStr out)], RdsStopDbInstance ident])"
    using pre out status ident raised by (simp add: stop_rds_dbs_append Let_def)
  with lambda_handler_last_stage [OF listed] show ?thesis by simp
qed

theorem stop_rds_dbs_error_propagates_witness:
  "fst (lambda_handler faulty_rds_provider PNone PNone []) =
     Inl (ClientError ''InvalidDBInstanceState'') \<and>
   (\<exists>a b. snd (stop_rds_dbs faulty_rds_provider
              [example_stopped_record, example_db_record, example_other_record] False []) =
      [Print [Lit ''Stopping DB: '', Subst (PStr a)],
       Print [Lit ''DB Instance '', Subst (PStr ''db-0''), Lit '' is stopped''],
       Print [Lit ''Stopping DB: '', Subst (PStr b)],
       RdsStopDbInstance (PStr ''db-1'')])"
proof -
  let ?P = faulty_rds_provider
  have P: "ec2_instances_filter ?P = (\<lambda>t fs n. (example_vms, None))"
    "rds_paginate ?P = (\<lambda>t op. (example_pages, None))"
    "instance_stop ?P = (\<lambda>t i h d. None)"
    "rds_stop_db_instance ?P = (\<lambda>t v. Some (ClientError ''InvalidDBInstanceState''))"
    by (simp_all add: faulty_rds_provider_def quiet_provider_def)
  obtain a b where out:
    "json_dumps DateTimeEncoder_default example_stopped_record = Inr a"
    "json_dumps DateTimeEncoder_default example_db_record = Inr b"
    using json_dumps_DateTimeEncoder_total by metis
  obtain t1 where s1:
    "get_ec2_vm_list ?P ([] @ [Print [Lit ''getting vm list'']]) = (Inr example_vms, t1)"
    using example_listing(1) [OF P(1,2)] by blast
  obtain t2 where s2:
    "turnoff_ec2_vms ?P example_vms False (t1 @ [Print [Lit ''got ec2 list'']]) = (Inr (), t2)"
    using example_turnoff [OF P(3)] by blast
  obtain t3 where s3: "get_rds_db_list ?P t2 =
      (Inr ([example_stopped_record] @ example_db_record # [example_other_record]), t3)"
    using example_listing(2) [OF P(1,2)] by auto
  have pre: "stop_rds_dbs ?P [example_stopped_record] False t =
      (Inr (), t @ [Print [Lit ''Stopping DB: '', Subst (PStr a)],
                    Print [Lit ''DB Instance '', Subst (PStr ''db-0''), Lit '' is stopped'']])"
    for t
    by (simp add: out example_fields Let_def)
  have raised: "rds_stop_db_instance ?P t (PStr ''db-1'') =
      Some (ClientError ''InvalidDBInstanceState'')" for t
    by (simp add: P)
  have "fst (lambda_handler ?P PNone PNone []) = Inl (ClientError ''InvalidDBInstanceState'')"
    using stop_rds_dbs_error_propagates [OF s1 s2 s3 pre out(2) example_fields(3) _ example_fields(4) raised,
        of PNone PNone] by simp
  moreover have "snd (stop_rds_dbs ?P
        ([example_stopped_record] @ example_db_record # [example_other_record]) False []) =
      [Print [Lit ''Stopping DB: '', Subst (PStr a)],
       Print [Lit ''DB Instance '', Subst (PStr ''db-0''), Lit '' is stopped''],
       Print [Lit ''Stopping DB: '', Subst (PStr b)],
       RdsStopDbInstance (PStr ''db-1'')]"
    by (simp add: out example_fields P Let_def)
  ultimately show ?thesis by auto
qed

text \<open>
  Claim C6. When the paginator yields its pages without a fault and every page holds a list
  under \<^verbatim>\<open>DBInstances\<close>, \<^verbatim>\<open>get_rds_db_list\<close> returns the records of all the pages, in
  page order: the concatenation of the pages' lists.
\<close>

theorem get_rds_db_list_drains_pages:
  assumes "rds_paginate P t ''describe_db_instances'' = (pages, None)"
    and "list_all2 (\<lambda>page recs. py_getitem page ''DBInstances'' = Inr (PList recs)) pages pss"
  shows "get_rds_db_list P t = (Inr (concat pss), t @ [RdsPaginate ''describe_db_instances''])"
  using assms(1) drain_pages_concat [OF assms(2), of "[]"]
  by (simp add: get_rds_db_list_def)

theorem get_rds_db_list_drains_pages_witness:
  "get_rds_db_list quiet_provider [] =
     (Inr [example_stopped_record, example_db_record, example_other_record],
      [RdsPaginate ''describe_db_instances''])"
proof -
  have "rds_paginate quiet_provider [] ''describe_db_instances'' = (example_pages, None)"
    by (simp add: quiet_provider_def)
  moreover have "list_all2 (\<lambda>page recs. py_getitem page ''DBInstances'' = Inr (PList recs))
      example_pages [[example_stopped_record], [example_db_record, example_other_record]]"
    by (simp add: example_pages_def)
  ultimately show ?thesis
    using get_rds_db_list_drains_pages [of quiet_provider "[]" example_pages
        "[[example_stopped_record], [example_db_record, example_other_record]]"]
    by simp
qed

text \<open>
  Claim C7. Serializing a record that contains a date or a datetime, as a field or deeper,
  with the custom encoder does not raise, and the text produced contains the ISO-8601
  representation of that value.
\<close>

theorem DateTimeEncoder_emits_isoformat:
  assumes "is_temporal v" and "within v r"
  shows "\<exists>out. json_dumps DateTimeEncoder_default r = Inr out \<and> sublist (isoformat v) out"
proof -
  obtain out where out: "iterencode recursion_limit DateTimeEncoder_default r = Inr out"
    using json_dumps_DateTimeEncoder_total [of r] by (auto simp: json_dumps_def)
  from within_sublist(1) [OF assms(2) out] obtain tv where
    tv: "iterencode recursion_limit DateTimeEncoder_default v = Inr tv" "sublist tv out" by blast
  have "recursion_limit = Suc 999" by (simp add: recursion_limit_def)
  with iterencode_temporal [OF assms(1), of 999] tv(1)
  have "tv = CHR 0x22 # isoformat v @ [CHR 0x22]" by simp
  then have "sublist (isoformat v) tv"
    using sublist_appendI [of "isoformat v" "[CHR 0x22]" "[CHR 0x22]"] by simp
  with tv(2) have "sublist (isoformat v) out"
    by (blast intro: sublist_trans)
  with out show ?thesis by (auto simp: json_dumps_def)
qed

theorem DateTimeEncoder_emits_isoformat_witness:
  "is_temporal (PDateTime example_datetime) \<and>
   within (PDateTime example_datetime) example_db_record \<and>
   (\<exists>out. json_dumps DateTimeEncoder_default example_db_record = Inr out \<and>
      sublist (datetime_isoformat example_datetime) out)"
proof -
  have t: "is_temporal (PDateTime example_datetime)" by simp
  have w: "within (PDateTime example_datetime) example_db_record"
    by (simp add: example_db_record_def)
  from DateTimeEncoder_emits_isoformat [OF t w] t w show ?thesis by simp
qed



text \<open>
  Claim C9. \<^verbatim>\<open>DateTimeEncoder.default\<close> returns \<^verbatim>\<open>None\<close> for every object that is not
  a date or a datetime; it never raises as the base class's method does. So a value that is
  neither JSON-native nor temporal is encoded as \<^verbatim>\<open>null\<close>: a record is serialized to the
  same text as the record with \<^verbatim>\<open>None\<close> in the place of every such value, where the base
  encoder raises \<^verbatim>\<open>TypeError\<close>.
\<close>

theorem DateTimeEncoder_default_None:
  "(\<not> is_temporal obj \<longrightarrow> DateTimeEncoder_default obj = Inr PNone) \<and>
   json_dumps DateTimeEncoder_default r = json_dumps DateTimeEncoder_default (nullify r) \<and>
   json_dumps DateTimeEncoder_default (PObject x) = Inr ''null'' \<and>
   json_dumps JSONEncoder_default (PObject x) = Inl (TypeError ''Object is not JSON serializable'')"
proof -
  have "DateTimeEncoder_default obj = Inr PNone" if "\<not> is_temporal obj"
    using that by (simp add: DateTimeEncoder_default_def)
  moreover have "json_dumps DateTimeEncoder_default r = json_dumps DateTimeEncoder_default (nullify r)"
    unfolding json_dumps_Suc by (simp only: iterencode_nullify)
  moreover have "json_dumps DateTimeEncoder_default (PObject x) = Inr ''null''"
    unfolding json_dumps_Suc by (simp add: DateTimeEncoder_default_def)
  moreover have "json_dumps JSONEncoder_default (PObject x) =
      Inl (TypeError ''Object is not JSON serializable'')"
    unfolding json_dumps_Suc by (simp add: JSONEncoder_default_def)
  ultimately show ?thesis by blast
qed

theorem DateTimeEncoder_default_None_witness:
  "DateTimeEncoder_default (PObject ''Decimal'') = Inr PNone \<and>
   json_dumps DateTimeEncoder_default (PDict [(''x'', PObject ''Decimal'')]) =
     Inr [CHR ''{'', CHR 0x22, CHR ''x'', CHR 0x22, CHR '':'', CHR '' '',
          CHR ''n'', CHR ''u'', CHR ''l'', CHR ''l'', CHR ''}'']"
proof -
  have "json_dumps DateTimeEncoder_default (PDict [(''x'', PNone)]) =
      Inr [CHR ''{'', CHR 0x22, CHR ''x'', CHR 0x22, CHR '':'', CHR '' '',
           CHR ''n'', CHR ''u'', CHR ''l'', CHR ''l'', CHR ''}'']"
    by (simp add: json_dumps_Suc encode_basestring_ascii_def needs_escape_def key_separator_def)
  with DateTimeEncoder_default_None
    [of "PObject ''Decimal''" "PDict [(''x'', PObject ''Decimal'')]"]
  show ?thesis by simp
qed

text \<open>
  Claim C10, as amended. \<^verbatim>\<open>get_ec2_vm_list\<close> passes the filter on the state code
  \<^verbatim>\<open>'16'\<close> and \<^verbatim>\<open>MaxResults=20\<close> to the filtered listing, and returns every instance
  the collection yields, in order; the function itself puts no bound on their number.
\<close>

theorem get_ec2_vm_list_passes_MaxResults:
  "get_ec2_vm_list P t =
     (case ec2_instances_filter P t
             [\<lparr>filter_Name = ''instance-state-code'', filter_Values = [''16'']\<rparr>] 20 of
        (instances, None) \<Rightarrow>
          (Inr instances,
           t @ [Ec2InstancesFilter
                  [\<lparr>filter_Name = ''instance-state-code'', filter_Values = [''16'']\<rparr>] 20])
      | (instances, Some ex) \<Rightarrow>
          (Inl ex,
           t @ [Ec2InstancesFilter
                  [\<lparr>filter_Name = ''instance-state-code'', filter_Values = [''16'']\<rparr>] 20]))"
proof -
  have "dec RUNNING_INSTANCES_STATE_CODE = ''16''"
    by (simp add: RUNNING_INSTANCES_STATE_CODE_def dec.simps digit_char_def char_of_eq_iff)
  then show ?thesis
    by (simp add: get_ec2_vm_list_def Let_def append_each_eq split: prod.splits option.splits)
qed

theorem get_ec2_vm_list_passes_MaxResults_witness:
  "get_ec2_vm_list quiet_provider [] =
     (Inr example_vms,
      [Ec2InstancesFilter
         [\<lparr>filter_Name = ''instance-state-code'', filter_Values = [''16'']\<rparr>] 20])"
  using get_ec2_vm_list_passes_MaxResults [of quiet_provider "[]"]
  by (simp add: quiet_provider_def)

text \<open>
  Claim C10 as stated fails: with 21 running instances, listed in pages of at most 20, the
  function returns all 21, and the stop loop makes 21 stop requests.
\<close>

theorem get_ec2_vm_list_unbounded_counterexample:
  "fst (get_ec2_vm_list crowded_provider []) = Inr crowded_vms \<and>
   length crowded_vms = 21 \<and>
   length (provider_calls (snd (turnoff_ec2_vms crowded_provider crowded_vms False []))) = 21"
proof -
  have "\<forall>t' i ex. instance_stop crowded_provider t' i False False = Some ex \<longrightarrow>
          (\<exists>msg. ex = ClientError msg)"
    by (simp add: crowded_provider_def quiet_provider_def)
  from turnoff_ec2_vms_all_calls [OF this, of crowded_vms "[]"]
  have "length (provider_calls (snd (turnoff_ec2_vms crowded_provider crowded_vms False []))) =
      length crowded_vms" by simp
  moreover have "length crowded_vms = 21"
    by (simp add: crowded_vms_def)
  moreover have "fst (get_ec2_vm_list crowded_provider []) = Inr crowded_vms"
    by (simp add: get_ec2_vm_list_def crowded_provider_def quiet_provider_def append_each_eq
        concat_pages_of Let_def)
  ultimately show ?thesis by simp
qed

end
